theory Spec2Isabelle
  imports Complex_Main "HOL-Library.AList" "HOL-Library.Sublist"
begin

section \<open>The syntax tree (src/types.ts)\<close>

text \<open>
  The tree-walking evaluator of src/interpreter.ts consumes the terms declared in
  src/types.ts. Every node there also carries a \<open>location\<close>, which the evaluator never
  reads; it is left out. A \<open>Parameter\<close> is read only through its \<open>text\<close>, so it is a
  string here. The node of kind \<open>K\<close> is the constructor \<open>TK\<close>, with the fields in the
  order of the evaluator's case for it.
\<close>

datatype BinaryOp = Add | Sub | Mul | Div | Rem | Eq | Neq | Lt | Gt | Lte | Gte | And | Or

datatype Term =
    TInt int
  | TStr string
  | TBool bool
  | TCall Term "Term list"
  | TBinary Term BinaryOp Term
  | TFunction "string list" Term
  | TLet string Term Term
  | TIf Term Term Term
  | TPrint Term
  | TFirst Term
  | TSecond Term
  | TTuple Term Term
  | TVar string

record File =
  expression :: Term

section \<open>Values, environments and the store\<close>

text \<open>
  An \<open>Env\<close> of the source is a JavaScript object holding the record \<open>objects\<close>. A
  closure keeps a reference to the \<open>Env\<close> it was created in, and the evaluator assigns
  into \<open>objects\<close> after such references may exist. The model therefore keeps every
  \<open>Env\<close> in a store: an environment reference is an index into the list \<open>envs\<close>, and
  the record \<open>objects\<close> at that index is an association list from names to values.
\<close>

type_synonym addr = nat

record Closure =
  body :: Term
  parameters :: "string list"
  env :: addr

datatype Value =
    VBoolean bool
  | VString string
  | VNumber int
  | VClosure Closure
  | VTuple Value Value

type_synonym Env = "(string \<times> Value) list"

record State =
  envs :: "Env list"
  console :: "string list"

text \<open>
  The three \<open>throw new Error\<close> sites of the source are the first three constructors;
  \<open>message\<close> below gives the text each one carries. \<open>Unmodelled\<close> is no error of the
  source: it marks the inputs on which JavaScript leaves the fragment modelled here
  (a number that is not an integer of magnitude below \<open>2^53\<close>, a division or remainder
  by zero, a name resolved through \<open>Object.prototype\<close>). Nothing is claimed about the
  source on those inputs.
\<close>

datatype Error =
    TypeMismatch string
  | ArityMismatch nat nat
  | UnboundVariable string
  | Unmodelled

text \<open>
  A run yields \<open>None\<close> when the fuel is used up, and otherwise the value returned or
  the error thrown, together with the state reached (what was printed before an error
  stays printed).
\<close>

type_synonym 'a res = "((Error + 'a) \<times> State) option"

definition andThen :: "'a res \<Rightarrow> ('a \<Rightarrow> State \<Rightarrow> 'b res) \<Rightarrow> 'b res" where
  "andThen r f =
     (case r of
        None \<Rightarrow> None
      | Some (Inl e, s) \<Rightarrow> Some (Inl e, s)
      | Some (Inr v, s) \<Rightarrow> f v s)"

definition lift :: "Error + 'a \<Rightarrow> State \<Rightarrow> 'a res" where
  "lift x s = Some (x, s)"

section \<open>Numbers and their text\<close>

text \<open>
  A \<open>number\<close> of the source is an IEEE double. On integers of magnitude at most
  \<open>2^53 - 1\<close> the operations used by the evaluator are exact, so such a number is an
  \<open>int\<close> here; any result outside that range is \<open>Unmodelled\<close>.
\<close>

definition safe :: "int \<Rightarrow> bool" where
  "safe n \<longleftrightarrow> - 9007199254740991 \<le> n \<and> n \<le> 9007199254740991"

definition number :: "int \<Rightarrow> Error + Value" where
  "number n = (if safe n then Inr (VNumber n) else Inl Unmodelled)"

definition digit :: "nat \<Rightarrow> char" where
  "digit d = ''0123456789'' ! d"

fun showNat :: "nat \<Rightarrow> string" where
  "showNat n = (if n < 10 then [digit n] else showNat (n div 10) @ [digit (n mod 10)])"

declare showNat.simps [simp del]

definition numberToString :: "int \<Rightarrow> string" where
  "numberToString n = (if n < 0 then CHR ''-'' # showNat (nat (- n)) else showNat (nat n))"

text \<open>
  The operator \<open>%\<close> of JavaScript on two integers: the result takes the sign of the
  dividend, and its magnitude is the remainder of the magnitudes.
\<close>

definition jsRemainder :: "int \<Rightarrow> int \<Rightarrow> int" where
  "jsRemainder a b = sgn a * (\<bar>a\<bar> mod \<bar>b\<bar>)"

section \<open>Errors and assertions\<close>

definition message :: "Error \<Rightarrow> string" where
  "message e =
     (case e of
        TypeMismatch ty \<Rightarrow> ''not a '' @ ty
      | ArityMismatch expected got \<Rightarrow>
          ''expected '' @ showNat expected @ '' arguments but instead got '' @ showNat got
      | UnboundVariable x \<Rightarrow> ''cannot find variable '' @ x
      | Unmodelled \<Rightarrow> [])"

definition typeMismatch :: "string \<Rightarrow> Error + 'a" where
  "typeMismatch ty = Inl (TypeMismatch ty)"

definition assertInt :: "Value \<Rightarrow> Error + int" where
  "assertInt v = (case v of VNumber n \<Rightarrow> Inr n | _ \<Rightarrow> typeMismatch ''int'')"

definition assertTuple :: "Value \<Rightarrow> Error + Value \<times> Value" where
  "assertTuple v = (case v of VTuple a b \<Rightarrow> Inr (a, b) | _ \<Rightarrow> typeMismatch ''tuple'')"

definition assertClosure :: "Value \<Rightarrow> Error + Closure" where
  "assertClosure v = (case v of VClosure c \<Rightarrow> Inr c | _ \<Rightarrow> typeMismatch ''closure'')"

definition assertBool :: "Value \<Rightarrow> Error + bool" where
  "assertBool v = (case v of VBoolean b \<Rightarrow> Inr b | _ \<Rightarrow> typeMismatch ''closure'')"

definition castToString :: "Value \<Rightarrow> Error + string" where
  "castToString v =
     (case v of
        VNumber n \<Rightarrow> Inr (numberToString n)
      | VString s \<Rightarrow> Inr s
      | _ \<Rightarrow> typeMismatch ''string or int'')"

definition isEqual :: "Value \<Rightarrow> Value \<Rightarrow> Error + bool" where
  "isEqual left right =
     (case (left, right) of
        (VNumber a, VNumber b) \<Rightarrow> Inr (a = b)
      | (VString a, VString b) \<Rightarrow> Inr (a = b)
      | (VBoolean a, VBoolean b) \<Rightarrow> Inr (a = b)
      | _ \<Rightarrow> typeMismatch ''number or string or boolean'')"

section \<open>Binary operators\<close>

definition bindE :: "Error + 'a \<Rightarrow> ('a \<Rightarrow> Error + 'b) \<Rightarrow> Error + 'b" where
  "bindE x f = (case x of Inl e \<Rightarrow> Inl e | Inr v \<Rightarrow> f v)"

definition interpretBinary :: "Value \<Rightarrow> Value \<Rightarrow> BinaryOp \<Rightarrow> Error + Value" where
  "interpretBinary left right op =
     (case op of
        Add \<Rightarrow>
          (case (left, right) of
             (VNumber a, VNumber b) \<Rightarrow> number (a + b)
           | _ \<Rightarrow>
               bindE (castToString left) (\<lambda>leftVal.
               bindE (castToString right) (\<lambda>rightVal.
               Inr (VString (leftVal @ rightVal)))))
      | Eq \<Rightarrow> bindE (isEqual left right) (\<lambda>v. Inr (VBoolean v))
      | Neq \<Rightarrow> bindE (isEqual left right) (\<lambda>v. Inr (VBoolean (\<not> v)))
      | Sub \<Rightarrow>
          bindE (assertInt left) (\<lambda>leftVal.
          bindE (assertInt right) (\<lambda>rightVal.
          number (leftVal - rightVal)))
      | Mul \<Rightarrow>
          bindE (assertInt left) (\<lambda>leftVal.
          bindE (assertInt right) (\<lambda>rightVal.
          number (leftVal * rightVal)))
      | Div \<Rightarrow>
          bindE (assertInt left) (\<lambda>leftVal.
          bindE (assertInt right) (\<lambda>rightVal.
          if rightVal = 0 then Inl Unmodelled
          else number \<lfloor>real_of_int leftVal / real_of_int rightVal\<rfloor>))
      | Rem \<Rightarrow>
          bindE (assertInt left) (\<lambda>leftVal.
          bindE (assertInt right) (\<lambda>rightVal.
          if rightVal = 0 then Inl Unmodelled
          else number \<lfloor>real_of_int (jsRemainder leftVal rightVal)\<rfloor>))
      | Lt \<Rightarrow>
          bindE (assertInt left) (\<lambda>leftVal.
          bindE (assertInt right) (\<lambda>rightVal.
          Inr (VBoolean (leftVal < rightVal))))
      | Gt \<Rightarrow>
          bindE (assertInt left) (\<lambda>leftVal.
          bindE (assertInt right) (\<lambda>rightVal.
          Inr (VBoolean (leftVal > rightVal))))
      | Lte \<Rightarrow>
          bindE (assertInt left) (\<lambda>leftVal.
          bindE (assertInt right) (\<lambda>rightVal.
          Inr (VBoolean (leftVal \<le> rightVal))))
      | Gte \<Rightarrow>
          bindE (assertInt left) (\<lambda>leftVal.
          bindE (assertInt right) (\<lambda>rightVal.
          Inr (VBoolean (leftVal \<ge> rightVal))))
      | And \<Rightarrow>
          bindE (assertBool left) (\<lambda>leftVal.
          bindE (assertBool right) (\<lambda>rightVal.
          Inr (VBoolean (leftVal \<and> rightVal))))
      | Or \<Rightarrow>
          bindE (assertBool left) (\<lambda>leftVal.
          bindE (assertBool right) (\<lambda>rightVal.
          Inr (VBoolean (leftVal \<or> rightVal)))))"

fun showValue :: "Value \<Rightarrow> string" where
  "showValue (VNumber n) = numberToString n"
| "showValue (VBoolean b) = (if b then ''true'' else ''false'')"
| "showValue (VString s) = s"
| "showValue (VClosure c) = ''<#closure>''"
| "showValue (VTuple a b) = ''('' @ showValue a @ '','' @ showValue b @ '')''"


section \<open>The evaluator\<close>

text \<open>
  \<open>cloneEnv\<close> allocates a new \<open>Env\<close> whose \<open>objects\<close> is a copy of the given one's
  own properties, and returns the reference to it.
\<close>

definition cloneEnv :: "addr \<Rightarrow> State \<Rightarrow> addr \<times> State" where
  "cloneEnv a s = (length (envs s), s\<lparr>envs := envs s @ [envs s ! a]\<rparr>)"

text \<open>
  The names every JavaScript object inherits from \<open>Object.prototype\<close>. Reading one of
  them from an \<open>objects\<close> record that has no own property of that name yields a
  built-in object instead of \<open>undefined\<close>, and assigning to \<open>__proto__\<close> creates no
  property: both are \<open>Unmodelled\<close>.
\<close>

definition inherited :: "string \<Rightarrow> bool" where
  "inherited x \<longleftrightarrow> x \<in> set [''constructor'', ''hasOwnProperty'', ''isPrototypeOf'',
     ''propertyIsEnumerable'', ''toLocaleString'', ''toString'', ''valueOf'', ''__proto__'',
     ''__defineGetter__'', ''__defineSetter__'', ''__lookupGetter__'', ''__lookupSetter__'']"

text \<open>The read \<open>env.objects[x]\<close> followed by the test \<open>if (value)\<close> of the \<open>Var\<close> case.\<close>

definition lookupVar :: "addr \<Rightarrow> string \<Rightarrow> State \<Rightarrow> Error + Value" where
  "lookupVar a x s =
     (case map_of (envs s ! a) x of
        Some v \<Rightarrow> Inr v
      | None \<Rightarrow> if inherited x then Inl Unmodelled else Inl (UnboundVariable x))"

text \<open>The assignment \<open>env.objects[x] = v\<close>, in place, on the \<open>Env\<close> at \<open>a\<close>.\<close>

definition assignVar :: "addr \<Rightarrow> string \<Rightarrow> Value \<Rightarrow> State \<Rightarrow> unit res" where
  "assignVar a x v s =
     (if x = ''__proto__'' then Some (Inl Unmodelled, s)
      else Some (Inr (), s\<lparr>envs := (envs s)[a := AList.update x v (envs s ! a)]\<rparr>))"

definition consoleLog :: "string \<Rightarrow> State \<Rightarrow> State" where
  "consoleLog line s = s\<lparr>console := console s @ [line]\<rparr>"

text \<open>
  The loop of the \<open>Call\<close> case: for each parameter in order, the argument at the same
  index is evaluated by \<open>ev\<close> in the environment \<open>caller\<close> and assigned to the parameter
  in the environment \<open>functionEnv\<close>. It runs only on lists of equal length.
\<close>

fun bindArguments ::
  "(Term \<Rightarrow> addr \<Rightarrow> State \<Rightarrow> Value res) \<Rightarrow> string list \<Rightarrow> Term list \<Rightarrow> addr \<Rightarrow> addr \<Rightarrow> State
    \<Rightarrow> unit res" where
  "bindArguments ev (p # ps) (a # as) caller functionEnv s =
     andThen (ev a caller s) (\<lambda>v s1.
     andThen (assignVar functionEnv p v s1) (\<lambda>_ s2.
     bindArguments ev ps as caller functionEnv s2))"
| "bindArguments ev ps as caller functionEnv s = Some (Inr (), s)"

text \<open>
  The function \<open>interpret\<close> of the source, named \<open>interpretTerm\<close> here. It recurses
  into the body of whatever closure it calls, so it need not return. The first argument
  bounds the depth of its nested calls; \<open>None\<close> says that the bound was reached.
\<close>

primrec interpretTerm :: "nat \<Rightarrow> Term \<Rightarrow> addr \<Rightarrow> State \<Rightarrow> Value res" where
  "interpretTerm 0 term e s = None"
| "interpretTerm (Suc n) term e s =
     (case term of
        TStr v \<Rightarrow> Some (Inr (VString v), s)
      | TBool v \<Rightarrow> Some (Inr (VBoolean v), s)
      | TInt v \<Rightarrow> Some (number v, s)
      | TIf condition thn otherwise \<Rightarrow>
          andThen (interpretTerm n condition e s) (\<lambda>cond s1.
          andThen (lift (assertBool cond) s1) (\<lambda>boolean s2.
          interpretTerm n (if boolean then thn else otherwise) e s2))
      | TTuple first second \<Rightarrow>
          andThen (interpretTerm n first e s) (\<lambda>fst s1.
          andThen (interpretTerm n second e s1) (\<lambda>snd s2.
          Some (Inr (VTuple fst snd), s2)))
      | TFirst value \<Rightarrow>
          andThen (interpretTerm n value e s) (\<lambda>fst s1.
          andThen (lift (assertTuple fst) s1) (\<lambda>(a, b) s2.
          Some (Inr a, s2)))
      | TSecond value \<Rightarrow>
          andThen (interpretTerm n value e s) (\<lambda>fst s1.
          andThen (lift (assertTuple fst) s1) (\<lambda>(a, b) s2.
          Some (Inr b, s2)))
      | TBinary lhs op rhs \<Rightarrow>
          andThen (interpretTerm n lhs e s) (\<lambda>left s1.
          andThen (interpretTerm n rhs e s1) (\<lambda>right s2.
          Some (interpretBinary left right op, s2)))
      | TPrint value \<Rightarrow>
          andThen (interpretTerm n value e s) (\<lambda>v s1.
          Some (Inr v, consoleLog (showValue v) s1))
      | TVar text \<Rightarrow> Some (lookupVar e text s, s)
      | TLet name value next \<Rightarrow>
          (case cloneEnv e s of (newEnv, s0) \<Rightarrow>
          andThen (interpretTerm n value newEnv s0) (\<lambda>v s1.
          andThen (assignVar newEnv name v s1) (\<lambda>_ s2.
          interpretTerm n next newEnv s2)))
      | TCall callee arguments \<Rightarrow>
          andThen (interpretTerm n callee e s) (\<lambda>func s1.
          andThen (lift (assertClosure func) s1) (\<lambda>closure s2.
          if length (parameters closure) \<noteq> length arguments
          then Some (Inl (ArityMismatch (length (parameters closure)) (length arguments)), s2)
          else
            (case cloneEnv (env closure) s2 of (functionEnv, s3) \<Rightarrow>
            andThen (bindArguments (interpretTerm n) (parameters closure) arguments e functionEnv s3)
              (\<lambda>_ s4.
            interpretTerm n (body closure) functionEnv s4))))
      | TFunction ps value \<Rightarrow>
          Some (Inr (VClosure \<lparr>body = value, parameters = ps, env = e\<rparr>), s))"

definition interpretFile :: "nat \<Rightarrow> File \<Rightarrow> Value res" where
  "interpretFile n file = interpretTerm n (expression file) 0 \<lparr>envs = [[]], console = []\<rparr>"

section \<open>Notions used to state the properties\<close>


text \<open>The tag \<open>kind\<close> of a value, and the pairs of values that \<open>isEqual\<close> compares.\<close>

fun kind :: "Value \<Rightarrow> string" where
  "kind (VBoolean b) = ''boolean''"
| "kind (VString s) = ''string''"
| "kind (VNumber n) = ''number''"
| "kind (VClosure c) = ''closure''"
| "kind (VTuple a b) = ''tuple''"



text \<open>
  What a run may change: \<open>frame k s s'\<close> says that from \<open>s\<close> to \<open>s'\<close> no \<open>Env\<close> was
  dropped, the first \<open>k\<close> of them are as they were, and the console only grew.
  \<open>framedAt k m\<close> says so of every run of \<open>m\<close> that starts with at least \<open>k\<close>
  environments.
\<close>

definition frame :: "nat \<Rightarrow> State \<Rightarrow> State \<Rightarrow> bool" where
  "frame k s s' \<longleftrightarrow>
     length (envs s) \<le> length (envs s') \<and> take k (envs s') = take k (envs s)
     \<and> prefix (console s) (console s')"

definition framedAt :: "nat \<Rightarrow> (State \<Rightarrow> 'a res) \<Rightarrow> bool" where
  "framedAt k m \<longleftrightarrow>
     (\<forall>s r s'. k \<le> length (envs s) \<longrightarrow> m s = Some (r, s') \<longrightarrow> frame k s s')"

section \<open>Basic facts\<close>

lemma andThen_simps [simp]:
  "andThen None f = None"
  "andThen (Some (Inl err, s)) f = Some (Inl err, s)"
  "andThen (Some (Inr v, s)) f = f v s"
  by (simp_all add: andThen_def)

lemma bindE_simps [simp]:
  "bindE (Inl err) f = Inl err"
  "bindE (Inr v) f = f v"
  by (simp_all add: bindE_def)

lemma lift_simp [simp]: "lift x s = Some (x, s)"
  by (simp add: lift_def)


















section \<open>Unfolding the evaluator\<close>

lemma interpretTerm_Suc [simp]:
  "interpretTerm (Suc n) (TStr v) e s = Some (Inr (VString v), s)"
  "interpretTerm (Suc n) (TBool b) e s = Some (Inr (VBoolean b), s)"
  "interpretTerm (Suc n) (TInt i) e s = Some (number i, s)"
  "interpretTerm (Suc n) (TIf condition thn otherwise) e s =
     andThen (interpretTerm n condition e s) (\<lambda>cond s1.
     andThen (lift (assertBool cond) s1) (\<lambda>boolean s2.
     interpretTerm n (if boolean then thn else otherwise) e s2))"
  "interpretTerm (Suc n) (TTuple first second) e s =
     andThen (interpretTerm n first e s) (\<lambda>fst s1.
     andThen (interpretTerm n second e s1) (\<lambda>snd s2.
     Some (Inr (VTuple fst snd), s2)))"
  "interpretTerm (Suc n) (TFirst value) e s =
     andThen (interpretTerm n value e s) (\<lambda>fst s1.
     andThen (lift (assertTuple fst) s1) (\<lambda>(a, b) s2.
     Some (Inr a, s2)))"
  "interpretTerm (Suc n) (TSecond value) e s =
     andThen (interpretTerm n value e s) (\<lambda>fst s1.
     andThen (lift (assertTuple fst) s1) (\<lambda>(a, b) s2.
     Some (Inr b, s2)))"
  "interpretTerm (Suc n) (TBinary lhs op rhs) e s =
     andThen (interpretTerm n lhs e s) (\<lambda>left s1.
     andThen (interpretTerm n rhs e s1) (\<lambda>right s2.
     Some (interpretBinary left right op, s2)))"
  "interpretTerm (Suc n) (TPrint value) e s =
     andThen (interpretTerm n value e s) (\<lambda>v s1.
     Some (Inr v, consoleLog (showValue v) s1))"
  "interpretTerm (Suc n) (TVar text) e s = Some (lookupVar e text s, s)"
  "interpretTerm (Suc n) (TLet name value next) e s =
     (case cloneEnv e s of (newEnv, s0) \<Rightarrow>
     andThen (interpretTerm n value newEnv s0) (\<lambda>v s1.
     andThen (assignVar newEnv name v s1) (\<lambda>_ s2.
     interpretTerm n next newEnv s2)))"
  "interpretTerm (Suc n) (TCall callee arguments) e s =
     andThen (interpretTerm n callee e s) (\<lambda>func s1.
     andThen (lift (assertClosure func) s1) (\<lambda>closure s2.
     if length (parameters closure) \<noteq> length arguments
     then Some (Inl (ArityMismatch (length (parameters closure)) (length arguments)), s2)
     else
       (case cloneEnv (env closure) s2 of (functionEnv, s3) \<Rightarrow>
       andThen (bindArguments (interpretTerm n) (parameters closure) arguments e functionEnv s3)
         (\<lambda>_ s4.
       interpretTerm n (body closure) functionEnv s4))))"
  "interpretTerm (Suc n) (TFunction ps value) e s =
     Some (Inr (VClosure \<lparr>body = value, parameters = ps, env = e\<rparr>), s)"
  by simp_all

declare interpretTerm.simps(2) [simp del]

lemmas interpretTerm_numeral [simp] =
  interpretTerm_Suc [of "pred_numeral k", folded numeral_eq_Suc] for k

section \<open>The fuel is only a bound\<close>

text \<open>
  A run that ends within some bound ends with the same result within every larger one, so
  a result stated for one bound is the result of the source's \<open>interpret\<close>.
\<close>

lemma andThen_mono:
  assumes "andThen m f = Some r"
    and "\<And>x. m = Some x \<Longrightarrow> m' = Some x"
    and "\<And>v s1. f v s1 = Some r \<Longrightarrow> f' v s1 = Some r"
  shows "andThen m' f' = Some r"
proof (cases m)
  case None
  with assms(1) show ?thesis by simp
next
  case (Some x)
  then have m': "m' = Some x" by (rule assms(2))
  obtain y s1 where x: "x = (y, s1)" by (cases x)
  show ?thesis
  proof (cases y)
    case (Inl err)
    with assms(1) Some x m' show ?thesis by simp
  next
    case (Inr v)
    with assms(1) Some x have "f v s1 = Some r" by simp
    then have "f' v s1 = Some r" by (rule assms(3))
    with Inr x m' show ?thesis by simp
  qed
qed

lemma bindArguments_mono:
  assumes ev: "\<And>t e s r. ev t e s = Some r \<Longrightarrow> ev' t e s = Some r"
  shows "bindArguments ev ps as caller functionEnv s = Some r
    \<Longrightarrow> bindArguments ev' ps as caller functionEnv s = Some r"
proof (induction ps arbitrary: as s)
  case Nil
  then show ?case by simp
next
  case (Cons p ps)
  note IH = Cons.IH and run = Cons.prems
  show ?case
  proof (cases as)
    case Nil
    with run show ?thesis by simp
  next
    case (Cons a as')
    from run have "andThen (ev a caller s) (\<lambda>v s1.
        andThen (assignVar functionEnv p v s1) (\<lambda>_ s2.
        bindArguments ev ps as' caller functionEnv s2)) = Some r"
      unfolding Cons by simp
    then have "andThen (ev' a caller s) (\<lambda>v s1.
        andThen (assignVar functionEnv p v s1) (\<lambda>_ s2.
        bindArguments ev' ps as' caller functionEnv s2)) = Some r"
    proof (rule andThen_mono)
      show "ev' a caller s = Some x" if "ev a caller s = Some x" for x
        using that by (rule ev)
    next
      fix v s1
      assume "andThen (assignVar functionEnv p v s1) (\<lambda>_ s2.
          bindArguments ev ps as' caller functionEnv s2) = Some r"
      then show "andThen (assignVar functionEnv p v s1) (\<lambda>_ s2.
          bindArguments ev' ps as' caller functionEnv s2) = Some r"
        by (rule andThen_mono) (auto intro: IH)
    qed
    then show ?thesis unfolding Cons by simp
  qed
qed

lemma interpretTerm_Suc_mono:
  "interpretTerm n t e s = Some r \<Longrightarrow> interpretTerm (Suc n) t e s = Some r"
proof (induction n arbitrary: t e s r)
  case 0
  then show ?case by simp
next
  case (Suc n)
  note IH = Suc.IH
  have args: "bindArguments (interpretTerm n) ps as caller fe s0 = Some x
      \<Longrightarrow> bindArguments (interpretTerm (Suc n)) ps as caller fe s0 = Some x"
    for ps as caller fe s0 x
    by (rule bindArguments_mono [of "interpretTerm n", OF IH])
  from Suc.prems show ?case
  proof (cases t)
    case (TCall callee arguments)
    with Suc.prems show ?thesis
      apply (simp del: interpretTerm_Suc add: interpretTerm_Suc [of n] interpretTerm_Suc [of "Suc n"])
      apply (erule andThen_mono)
       apply (erule IH)
      apply (erule andThen_mono)
       apply assumption
      apply (auto simp: cloneEnv_def split: if_splits elim!: andThen_mono intro: IH args)
      done
  qed (auto simp: cloneEnv_def elim!: andThen_mono intro: IH)
qed

lemma interpretTerm_fuel:
  "interpretTerm n t e s = Some r \<Longrightarrow> interpretTerm (n + k) t e s = Some r"
  by (induction k) (simp_all add: interpretTerm_Suc_mono)

section \<open>Operators\<close>

lemma assertBool_simps [simp]:
  "assertBool (VBoolean b) = Inr b"
  "assertBool (VString x) = Inl (TypeMismatch ''closure'')"
  "assertBool (VNumber i) = Inl (TypeMismatch ''closure'')"
  "assertBool (VClosure c) = Inl (TypeMismatch ''closure'')"
  "assertBool (VTuple u w) = Inl (TypeMismatch ''closure'')"
  by (simp_all add: assertBool_def typeMismatch_def)

lemma assertBool_not_boolean: "kind v \<noteq> ''boolean'' \<Longrightarrow> assertBool v = Inl (TypeMismatch ''closure'')"
  by (cases v) simp_all

lemma interpretBinary_And_Or:
  assumes "op = And \<or> op = Or"
  shows "interpretBinary l r op =
     (case (l, r) of
        (VBoolean a, VBoolean b) \<Rightarrow> Inr (VBoolean (if op = And then a \<and> b else a \<or> b))
      | _ \<Rightarrow> Inl (TypeMismatch ''closure''))"
  using assms by (cases l; cases r) (auto simp: interpretBinary_def)






text \<open>
  Claim C10. Where a boolean is required and the value \<open>v\<close> is none, the type mismatch
  names the kind \<open>closure\<close>, so that its message is \<open>not a closure\<close>: in \<open>assertBool\<close>
  itself, for the condition of an \<open>If\<close>, and for either operand of \<open>And\<close> and \<open>Or\<close>.
\<close>

theorem boolean_mismatch_says_closure:
  assumes "kind v \<noteq> ''boolean''"
  shows "assertBool v = Inl (TypeMismatch ''closure'')
    \<and> message (TypeMismatch ''closure'') = ''not a closure''
    \<and> (interpretTerm n c e s = Some (Inr v, s1) \<longrightarrow>
         interpretTerm (Suc n) (TIf c t el) e s = Some (Inl (TypeMismatch ''closure''), s1))
    \<and> (op = And \<or> op = Or \<longrightarrow>
         interpretBinary v w op = Inl (TypeMismatch ''closure'')
         \<and> interpretBinary w v op = Inl (TypeMismatch ''closure''))"
proof -
  have a: "assertBool v = Inl (TypeMismatch ''closure'')"
    using assms by (rule assertBool_not_boolean)
  have b: "interpretBinary v w op = Inl (TypeMismatch ''closure'')
      \<and> interpretBinary w v op = Inl (TypeMismatch ''closure'')" if "op = And \<or> op = Or"
    using assms interpretBinary_And_Or [OF that]
    by (cases v; cases w) simp_all
  show ?thesis
    using a b by (simp add: message_def)
qed

theorem boolean_mismatch_says_closure_witness:
  "interpretTerm 2 (TIf (TInt 1) (TInt 2) (TInt 3)) 0 \<lparr>envs = [[]], console = []\<rparr>
     = Some (Inl (TypeMismatch ''closure''), \<lparr>envs = [[]], console = []\<rparr>)
   \<and> message (TypeMismatch ''closure'') = ''not a closure''
   \<and> interpretBinary (VNumber 1) (VBoolean True) And = Inl (TypeMismatch ''closure'')
   \<and> interpretBinary (VBoolean False) (VString ''x'') Or = Inl (TypeMismatch ''closure'')"
  using boolean_mismatch_says_closure [of "VNumber 1" 1 "TInt 1" 0 "\<lparr>envs = [[]], console = []\<rparr>"
      "\<lparr>envs = [[]], console = []\<rparr>" "TInt 2" "TInt 3" And "VBoolean True"]
    boolean_mismatch_says_closure [of "VString ''x''" 1 "TInt 1" 0 "\<lparr>envs = [[]], console = []\<rparr>"
      "\<lparr>envs = [[]], console = []\<rparr>" "TInt 2" "TInt 3" Or "VBoolean False"]
  by (simp add: number_def safe_def)



text \<open>
  Claim C7. In a \<open>Binary\<close> node with \<open>And\<close> or \<open>Or\<close>, once the left operand has a value
  \<open>l\<close>, whatever it is, the right operand is evaluated in the state the left one left:
  its non-termination or error is that of the node, and its output is kept (the state
  \<open>s2\<close>). Only then is the operator applied; it needs two booleans and otherwise fails
  with a type mismatch. The witness is \<open>false && print(true)\<close>, which prints \<open>true\<close>.
\<close>

theorem And_Or_evaluate_both:
  assumes "op = And \<or> op = Or"
    and "interpretTerm n lhs e s = Some (Inr l, s1)"
  shows "interpretTerm (Suc n) (TBinary lhs op rhs) e s =
     (case interpretTerm n rhs e s1 of
        None \<Rightarrow> None
      | Some (Inl err, s2) \<Rightarrow> Some (Inl err, s2)
      | Some (Inr r, s2) \<Rightarrow>
          Some (case (l, r) of
                  (VBoolean a, VBoolean b) \<Rightarrow> Inr (VBoolean (if op = And then a \<and> b else a \<or> b))
                | _ \<Rightarrow> Inl (TypeMismatch ''closure''),
                s2))"
proof (cases "interpretTerm n rhs e s1")
  case None
  with assms(2) show ?thesis by simp
next
  case (Some p)
  obtain x s2 where p: "p = (x, s2)" by (cases p)
  show ?thesis
  proof (cases x)
    case (Inl err)
    with Some p assms(2) show ?thesis by simp
  next
    case (Inr r)
    with Some p assms(2) show ?thesis
      by (simp add: interpretBinary_And_Or [OF assms(1)])
  qed
qed

theorem And_Or_evaluate_both_witness:
  "interpretTerm 3 (TBinary (TBool False) And (TPrint (TBool True))) 0
       \<lparr>envs = [[]], console = []\<rparr>
     = Some (Inr (VBoolean False), \<lparr>envs = [[]], console = [''true'']\<rparr>)"
  using And_Or_evaluate_both [of And 2 "TBool False" 0 "\<lparr>envs = [[]], console = []\<rparr>"
      "VBoolean False" "\<lparr>envs = [[]], console = []\<rparr>" "TPrint (TBool True)"]
  by (simp add: consoleLog_def)


text \<open>
  Claim C8. Once the condition of an \<open>If\<close> has a value, a value other than a boolean is a
  type mismatch, and a boolean selects the one branch that is evaluated, in the state the
  condition left. The other branch has no part in the result or in the output: replacing
  it by any term changes nothing.
\<close>

theorem If_one_branch:
  assumes "interpretTerm n c e s = Some (Inr cv, s1)"
  shows "interpretTerm (Suc n) (TIf c t el) e s =
     (case cv of
        VBoolean b \<Rightarrow> interpretTerm n (if b then t else el) e s1
      | _ \<Rightarrow> Some (Inl (TypeMismatch ''closure''), s1))
    \<and> (cv = VBoolean True \<longrightarrow>
         interpretTerm (Suc n) (TIf c t el) e s = interpretTerm (Suc n) (TIf c t el') e s)
    \<and> (cv = VBoolean False \<longrightarrow>
         interpretTerm (Suc n) (TIf c t el) e s = interpretTerm (Suc n) (TIf c t' el) e s)"
  using assms by (cases cv) simp_all

theorem If_one_branch_witness:
  "interpretTerm 3 (TIf (TBool True) (TInt 1) (TPrint (TInt 2))) 0 \<lparr>envs = [[]], console = []\<rparr>
     = Some (Inr (VNumber 1), \<lparr>envs = [[]], console = []\<rparr>)
   \<and> interpretTerm 3 (TIf (TBool False) (TPrint (TInt 1)) (TPrint (TInt 2))) 0
        \<lparr>envs = [[]], console = []\<rparr>
     = Some (Inr (VNumber 2), \<lparr>envs = [[]], console = [''2'']\<rparr>)"
  using If_one_branch [of 2 "TBool True" 0 "\<lparr>envs = [[]], console = []\<rparr>" "VBoolean True"
      "\<lparr>envs = [[]], console = []\<rparr>" "TInt 1" "TPrint (TInt 2)"]
    If_one_branch [of 2 "TBool False" 0 "\<lparr>envs = [[]], console = []\<rparr>" "VBoolean False"
      "\<lparr>envs = [[]], console = []\<rparr>" "TPrint (TInt 1)" "TPrint (TInt 2)"]
  by (simp add: number_def safe_def consoleLog_def numberToString_def showNat.simps digit_def)

section \<open>Environments that outlive a run\<close>

lemma andThenE:
  assumes "andThen r f = Some (x, s')"
  obtains (error) err where "r = Some (Inl err, s')" and "x = Inl err"
  | (ok) v s1 where "r = Some (Inr v, s1)" and "f v s1 = Some (x, s')"
  using assms by (auto simp: andThen_def split: option.splits sum.splits)

lemma frame_refl: "frame k s s"
  by (simp add: frame_def)

lemma frame_trans: "frame k s s1 \<Longrightarrow> frame k s1 s2 \<Longrightarrow> frame k s s2"
  by (auto simp: frame_def intro: prefix_order.trans)

lemma frame_length: "frame k s s' \<Longrightarrow> k \<le> length (envs s) \<Longrightarrow> k \<le> length (envs s')"
  by (simp add: frame_def)

lemma frame_nth: "frame k s s' \<Longrightarrow> a < k \<Longrightarrow> envs s' ! a = envs s ! a"
proof -
  assume f: "frame k s s'" and a: "a < k"
  from a have "envs s' ! a = take k (envs s') ! a" by simp
  also from f have "\<dots> = take k (envs s) ! a" by (simp add: frame_def)
  also from a have "\<dots> = envs s ! a" by simp
  finally show ?thesis .
qed

lemma framedAtI:
  assumes "\<And>s r s'. k \<le> length (envs s) \<Longrightarrow> m s = Some (r, s') \<Longrightarrow> frame k s s'"
  shows "framedAt k m"
  using assms by (simp add: framedAt_def)

lemma framedAtD:
  assumes "framedAt k m" and "k \<le> length (envs s)" and "m s = Some (r, s')"
  shows "frame k s s'"
  using assms by (simp add: framedAt_def)

lemma framedAt_cong:
  assumes "\<And>s. m s = m' s" and "framedAt k m'"
  shows "framedAt k m"
  using assms by (simp add: framedAt_def)

lemma framedAt_return: "framedAt k (\<lambda>s. Some (g s, s))"
  by (rule framedAtI) (auto simp: frame_refl)

lemma framedAt_lift: "framedAt k (lift x)"
  by (rule framedAtI) (auto simp: frame_refl)

lemma framedAt_consoleLog: "framedAt k (\<lambda>s. Some (x, consoleLog line s))"
  by (rule framedAtI) (auto simp: frame_def consoleLog_def)

lemma framedAt_assignVar: "k \<le> a \<Longrightarrow> framedAt k (assignVar a x v)"
  by (rule framedAtI) (auto simp: frame_def assignVar_def split: if_splits)

lemma framedAt_if:
  assumes "framedAt k m1" and "framedAt k m2"
  shows "framedAt k (\<lambda>s. if c then m1 s else m2 s)"
  using assms by (simp add: framedAt_def)

lemma framedAt_case_prod:
  assumes "\<And>a b. framedAt k (f a b)"
  shows "framedAt k (case p of (a, b) \<Rightarrow> f a b)"
  using assms by (cases p) simp

lemma framedAt_andThen:
  assumes m: "framedAt k m" and f: "\<And>v. framedAt k (f v)"
  shows "framedAt k (\<lambda>s. andThen (m s) f)"
proof (rule framedAtI)
  fix s r s'
  assume k: "k \<le> length (envs s)" and run: "andThen (m s) f = Some (r, s')"
  from run show "frame k s s'"
  proof (cases rule: andThenE)
    case (error err)
    with m k show ?thesis by (auto dest: framedAtD)
  next
    case (ok v s1)
    from m k ok(1) have first: "frame k s s1" by (rule framedAtD)
    with k have "k \<le> length (envs s1)" by (simp add: frame_length)
    with f ok(2) have "frame k s1 s'" by (auto dest: framedAtD)
    with first show ?thesis by (rule frame_trans)
  qed
qed

lemma framedAt_cloneEnv:
  assumes f: "\<And>b. k \<le> b \<Longrightarrow> framedAt k (f b)"
  shows "framedAt k (\<lambda>s. case cloneEnv a s of (b, s0) \<Rightarrow> f b s0)"
proof (rule framedAtI)
  fix s r s'
  assume k: "k \<le> length (envs s)"
    and run: "(case cloneEnv a s of (b, s0) \<Rightarrow> f b s0) = Some (r, s')"
  define s0 where "s0 = s\<lparr>envs := envs s @ [envs s ! a]\<rparr>"
  from k have first: "frame k s s0" by (simp add: frame_def s0_def)
  from run have "f (length (envs s)) s0 = Some (r, s')" by (simp add: cloneEnv_def s0_def)
  moreover from k have "k \<le> length (envs s0)" by (simp add: s0_def)
  ultimately have "frame k s0 s'" using f [OF k] by (auto dest: framedAtD)
  with first show "frame k s s'" by (rule frame_trans)
qed

lemma framedAt_bindArguments:
  assumes ev: "\<And>t. framedAt k (ev t caller)" and k: "k \<le> functionEnv"
  shows "framedAt k (bindArguments ev ps as caller functionEnv)"
proof (induction ps arbitrary: as)
  case Nil
  have "\<And>s. bindArguments ev [] as caller functionEnv s = Some (Inr (), s)" by simp
  then show ?case by (rule framedAt_cong) (rule framedAt_return)
next
  case (Cons p ps)
  show ?case
  proof (cases as)
    case Nil
    have "\<And>s. bindArguments ev (p # ps) [] caller functionEnv s = Some (Inr (), s)" by simp
    then show ?thesis unfolding Nil by (rule framedAt_cong) (rule framedAt_return)
  next
    case (Cons a as')
    have "\<And>s. bindArguments ev (p # ps) (a # as') caller functionEnv s =
        andThen (ev a caller s) (\<lambda>v s1.
        andThen (assignVar functionEnv p v s1) (\<lambda>_ s2.
        bindArguments ev ps as' caller functionEnv s2))"
      by simp
    then show ?thesis
      unfolding Cons
      by (rule framedAt_cong)
        (intro framedAt_andThen ev framedAt_assignVar k Cons.IH)
  qed
qed

lemma interpretTerm_framedAt: "framedAt k (interpretTerm n t e)"
proof (induction n arbitrary: t e k)
  case 0
  show ?case by (rule framedAtI) simp
next
  case (Suc n)
  note IH = Suc.IH
  show ?case
  proof (cases t)
    case (TInt i)
    show ?thesis unfolding TInt
      by (rule framedAt_cong, rule interpretTerm_Suc) (rule framedAt_return)
  next
    case (TStr v)
    show ?thesis unfolding TStr
      by (rule framedAt_cong, rule interpretTerm_Suc) (rule framedAt_return)
  next
    case (TBool b)
    show ?thesis unfolding TBool
      by (rule framedAt_cong, rule interpretTerm_Suc) (rule framedAt_return)
  next
    case (TCall callee arguments)
    show ?thesis unfolding TCall
      by (rule framedAt_cong, rule interpretTerm_Suc)
        (intro framedAt_andThen framedAt_lift framedAt_if framedAt_return framedAt_cloneEnv
          framedAt_bindArguments IH)
  next
    case (TBinary lhs op rhs)
    show ?thesis unfolding TBinary
      by (rule framedAt_cong, rule interpretTerm_Suc)
        (intro framedAt_andThen framedAt_return IH)
  next
    case (TFunction ps b)
    show ?thesis unfolding TFunction
      by (rule framedAt_cong, rule interpretTerm_Suc) (rule framedAt_return)
  next
    case (TLet name v nxt)
    show ?thesis unfolding TLet
      by (rule framedAt_cong, rule interpretTerm_Suc)
        (intro framedAt_cloneEnv framedAt_andThen framedAt_assignVar IH)
  next
    case (TIf c a b)
    show ?thesis unfolding TIf
      by (rule framedAt_cong, rule interpretTerm_Suc)
        (intro framedAt_andThen framedAt_lift IH)
  next
    case (TPrint v)
    show ?thesis unfolding TPrint
      by (rule framedAt_cong, rule interpretTerm_Suc)
        (intro framedAt_andThen framedAt_consoleLog IH)
  next
    case (TFirst v)
    show ?thesis unfolding TFirst
      by (rule framedAt_cong, rule interpretTerm_Suc)
        (intro framedAt_andThen framedAt_lift framedAt_case_prod framedAt_return IH)
  next
    case (TSecond v)
    show ?thesis unfolding TSecond
      by (rule framedAt_cong, rule interpretTerm_Suc)
        (intro framedAt_andThen framedAt_lift framedAt_case_prod framedAt_return IH)
  next
    case (TTuple a b)
    show ?thesis unfolding TTuple
      by (rule framedAt_cong, rule interpretTerm_Suc)
        (intro framedAt_andThen framedAt_return IH)
  next
    case (TVar x)
    show ?thesis unfolding TVar
      by (rule framedAt_cong, rule interpretTerm_Suc) (rule framedAt_return)
  qed
qed

lemma interpretTerm_frame:
  assumes "interpretTerm n t e s = Some (r, s')" and "k \<le> length (envs s)"
  shows "frame k s s'"
  using interpretTerm_framedAt assms(2,1) by (rule framedAtD)

section \<open>Closures and environments\<close>

lemma showNat_digit [simp]: "n < 10 \<Longrightarrow> showNat n = [digit n]"
  by (simp add: showNat.simps)

lemmas eval_defs = number_def safe_def lookupVar_def assignVar_def cloneEnv_def consoleLog_def
  inherited_def assertClosure_def assertInt_def assertTuple_def typeMismatch_def
  interpretBinary_def isEqual_def castToString_def numberToString_def digit_def
  interpretFile_def

lemma Let_unfold:
  assumes "name \<noteq> ''__proto__''"
  shows "interpretTerm (Suc n) (TLet name bv nxt) e s =
      andThen (interpretTerm n bv (length (envs s)) (s\<lparr>envs := envs s @ [envs s ! e]\<rparr>))
        (\<lambda>v s1. interpretTerm n nxt (length (envs s))
           (s1\<lparr>envs := (envs s1)[length (envs s) :=
              AList.update name v (envs s1 ! length (envs s))]\<rparr>))"
  using assms by (simp add: cloneEnv_def assignVar_def)

lemma Let_function_literal:
  assumes "name \<noteq> ''__proto__''"
  shows "interpretTerm (Suc (Suc n)) (TLet name (TFunction ps b) nxt) e s =
      interpretTerm (Suc n) nxt (length (envs s))
        (s\<lparr>envs := envs s @ [AList.update name
           (VClosure \<lparr>body = b, parameters = ps, env = length (envs s)\<rparr>) (envs s ! e)]\<rparr>)"
  unfolding Let_unfold [OF assms] by simp

text \<open>
  Claim C2, as the code has it. A run of the evaluator, whatever the term, leaves every
  environment that existed when the run began as it was, and drops none: the in-place
  assignments of \<open>Let\<close> and \<open>Call\<close> go to the copy they have just made. So an
  environment captured by a closure is not changed by any evaluation that begins after
  the capture. The assignment that does reach a captured environment belongs to a run
  under way at the capture: a \<open>Let\<close> whose bound value is a function literal has the
  literal capture the copy made by the \<open>Let\<close>, at the new reference
  \<open>length (envs s)\<close>, and evaluates the rest with the closure assigned to the name in
  that very environment (second conjunct).
\<close>

theorem run_keeps_existing_envs:
  "(interpretTerm n t e s = Some (r, s') \<longrightarrow>
      length (envs s) \<le> length (envs s')
      \<and> (\<forall>a. a < length (envs s) \<longrightarrow> envs s' ! a = envs s ! a))
   \<and> (name \<noteq> ''__proto__'' \<longrightarrow>
      interpretTerm (Suc (Suc n)) (TLet name (TFunction ps b) nxt) e s =
        interpretTerm (Suc n) nxt (length (envs s))
          (s\<lparr>envs := envs s @ [AList.update name
             (VClosure \<lparr>body = b, parameters = ps, env = length (envs s)\<rparr>) (envs s ! e)]\<rparr>))"
proof -
  have kept: "length (envs s) \<le> length (envs s')
      \<and> (\<forall>a. a < length (envs s) \<longrightarrow> envs s' ! a = envs s ! a)"
    if run: "interpretTerm n t e s = Some (r, s')"
  proof -
    from run have f: "frame (length (envs s)) s s'"
      by (rule interpretTerm_frame) simp
    then have "length (envs s) \<le> length (envs s')"
      by (simp add: frame_def)
    moreover have "envs s' ! a = envs s ! a" if "a < length (envs s)" for a
      using f that by (rule frame_nth)
    ultimately show ?thesis by simp
  qed
  show ?thesis
    using kept Let_function_literal [of name n ps b nxt e s] by blast
qed

theorem run_keeps_existing_envs_witness:
  "interpretTerm 4 (TLet ''x'' (TInt 100) (TCall (TVar ''f'') [TInt 2])) 1
       \<lparr>envs = [[], [(''f'', VClosure \<lparr>body = TVar ''y'', parameters = [''y''], env = 0\<rparr>)]],
        console = []\<rparr>
     = Some (Inr (VNumber 2),
        \<lparr>envs = [[], [(''f'', VClosure \<lparr>body = TVar ''y'', parameters = [''y''], env = 0\<rparr>)],
                 [(''f'', VClosure \<lparr>body = TVar ''y'', parameters = [''y''], env = 0\<rparr>),
                  (''x'', VNumber 100)],
                 [(''y'', VNumber 2)]],
         console = []\<rparr>)
   \<and> interpretTerm 2 (TLet ''h'' (TFunction [] (TInt 1)) (TVar ''h'')) 0
       \<lparr>envs = [[]], console = []\<rparr>
     = Some (Inr (VClosure \<lparr>body = TInt 1, parameters = [], env = 1\<rparr>),
        \<lparr>envs = [[], [(''h'', VClosure \<lparr>body = TInt 1, parameters = [], env = 1\<rparr>)]],
         console = []\<rparr>)"
  using run_keeps_existing_envs [of 4 "TLet ''x'' (TInt 100) (TCall (TVar ''f'') [TInt 2])" 1
      "\<lparr>envs = [[], [(''f'', VClosure \<lparr>body = TVar ''y'', parameters = [''y''], env = 0\<rparr>)]],
        console = []\<rparr>" _ _ "''h''" "[]" "TInt 1" "TVar ''h''"]
    run_keeps_existing_envs [of 0 "TInt 1" 0 "\<lparr>envs = [[]], console = []\<rparr>" _ _
      "''h''" "[]" "TInt 1" "TVar ''h''"]
  by (simp add: eval_defs)

text \<open>
  Claim C2 as stated fails. In \<open>let f = fn () => f; f()\<close> the function literal is evaluated
  in environment 1, the copy of the empty root environment, where \<open>f\<close> is not bound
  (second conjunct). The \<open>Let\<close> then assigns \<open>f\<close> into that same environment, and the
  call of the closure finds \<open>f\<close> in its body: the run ends with the closure, and
  environment 1 holds the binding.
\<close>

theorem captured_env_changed_counterexample:
  "interpretFile 4 \<lparr>expression = TLet ''f'' (TFunction [] (TVar ''f'')) (TCall (TVar ''f'') [])\<rparr>
     = Some (Inr (VClosure \<lparr>body = TVar ''f'', parameters = [], env = 1\<rparr>),
        \<lparr>envs = [[],
                 [(''f'', VClosure \<lparr>body = TVar ''f'', parameters = [], env = 1\<rparr>)],
                 [(''f'', VClosure \<lparr>body = TVar ''f'', parameters = [], env = 1\<rparr>)]],
         console = []\<rparr>)
   \<and> interpretTerm 1 (TFunction [] (TVar ''f'')) 1 \<lparr>envs = [[], []], console = []\<rparr>
     = Some (Inr (VClosure \<lparr>body = TVar ''f'', parameters = [], env = 1\<rparr>),
        \<lparr>envs = [[], []], console = []\<rparr>)
   \<and> lookupVar 1 ''f'' \<lparr>envs = [[], []], console = []\<rparr> = Inl (UnboundVariable ''f'')"
  by (simp add: eval_defs)




section \<open>Calls\<close>

lemma assertClosure_simps [simp]:
  "assertClosure (VClosure c) = Inr c"
  "kind v \<noteq> ''closure'' \<Longrightarrow> assertClosure v = Inl (TypeMismatch ''closure'')"
  by (cases v; simp add: assertClosure_def typeMismatch_def)+





end
